theory Spec2Isabelle
  imports Complex_Main
begin

section \<open>The PDF viewer of \<open>src/main.py\<close>\<close>

text \<open>
  The embedding follows the class \<open>PDFViewer\<close>: its attributes are the fields of
  the record \<open>viewer\<close>, each method is a function from a viewer to an outcome, and
  an exception is the left summand of the outcome, carrying the viewer as the
  exception leaves it (Python keeps every assignment made before the raise).
  Python floats are read as real numbers, except for the one product that is
  truncated to a pixel count, which is a parameter. The rasterizer (PyMuPDF) is
  not part of the repository: it is a parameter too, in the same record
  \<open>fitz\<close>.
\<close>

subsection \<open>Python primitives\<close>

datatype error =
  DocumentOpenError | RenderFailure | ZeroDivisionError | AttributeError | ValueError

text \<open>\<open>sorted((a, b, c))[1]\<close>\<close>

definition median3 :: "'a::linorder \<Rightarrow> 'a \<Rightarrow> 'a \<Rightarrow> 'a" where
  "median3 a b c = sort [a, b, c] ! 1"

text \<open>\<open>int(x)\<close> on a float: truncation towards zero.\<close>

definition py_int :: "real \<Rightarrow> int" where
  "py_int x = (if 0 \<le> x then \<lfloor>x\<rfloor> else \<lceil>x\<rceil>)"

subsection \<open>The rasterizer and the float unit, parameters\<close>

text \<open>
  \<open>fz_open\<close> is \<open>fitz.open\<close> (\<open>None\<close> when it raises), \<open>fz_len\<close> is
  \<open>len(doc)\<close>, \<open>fz_truthy\<close> is the truth value Python gives a document object in
  \<open>self.doc and ...\<close> (\<open>None\<close> when the test itself raises, as it does for a
  closed PyMuPDF document, whose truth value is taken from its length),
  \<open>fz_close\<close> is \<open>doc.close()\<close> (the object after the call), \<open>fz_load_page\<close> is
  \<open>doc.load_page(i).rect\<close> as (width, height) and \<open>fz_get_pixmap\<close> the size
  (width, height) of \<open>page.get_pixmap\<close> at a scale; the last two are \<open>None\<close>
  when the library raises.

  The floats of the source are real numbers here. The one place where the code
  turns a float into an integer that is then displayed is the product
  \<open>combined.width * scale_x\<close> under \<open>int\<close>, and there the rounding of the
  double product decides the pixel: \<open>float_mul a b\<close> is the product Python
  computes for the doubles that \<open>a\<close> and \<open>b\<close> stand for.
\<close>

record 'd fitz =
  fz_open :: "string \<Rightarrow> 'd option"
  fz_len :: "'d \<Rightarrow> nat"
  fz_truthy :: "'d \<Rightarrow> bool option"
  fz_close :: "'d \<Rightarrow> 'd"
  fz_load_page :: "'d \<Rightarrow> int \<Rightarrow> (real \<times> real) option"
  fz_get_pixmap :: "'d \<Rightarrow> int \<Rightarrow> real \<Rightarrow> (nat \<times> nat) option"
  float_mul :: "real \<Rightarrow> real \<Rightarrow> real"

subsection \<open>The viewer's state\<close>

text \<open>
  \<open>canvas_width\<close> and \<open>canvas_height\<close> are what \<open>winfo_width()\<close> and
  \<open>winfo_height()\<close> return; \<open>photos\<close> holds the size of the image on display;
  \<open>after_queue\<close> counts the callbacks scheduled with \<open>self.after\<close>;
  \<open>page_scale_to\<close> and \<open>page_scale_value\<close> are the slider's upper end and value;
  \<open>closed_docs\<close> lists the documents \<open>close()\<close> was called on, latest first.
  \<open>target_page_index\<close> is \<open>None\<close> until \<open>_start_flip_animation\<close> creates the
  attribute.
\<close>

record 'd viewer =
  doc :: "'d option"
  page_count :: int
  page_index :: int
  zoom :: real
  fit_mode :: bool
  dual_page_mode :: bool
  filepath :: "string option"
  photos :: "(nat \<times> nat) list"
  is_animating :: bool
  animation_direction :: int
  animation_progress :: real
  target_page_index :: "int option"
  block_scale_callback :: bool
  canvas_width :: int
  canvas_height :: int
  after_queue :: nat
  page_scale_to :: int
  page_scale_value :: int
  closed_docs :: "'d list"

type_synonym 'd outcome = "(error \<times> 'd viewer) + 'd viewer"

definition pad :: int where
  "pad = 12"

text \<open>The state in which a call leaves the viewer, raised or not.\<close>

definition final :: "'d outcome \<Rightarrow> 'd viewer" where
  "final r = (case r of Inl (e, s) \<Rightarrow> s | Inr s \<Rightarrow> s)"

definition raised :: "'d outcome \<Rightarrow> bool" where
  "raised r = (case r of Inl x \<Rightarrow> True | Inr s \<Rightarrow> False)"

text \<open>\<open>__init__\<close>; the canvas has the size the window manager gave it.\<close>

definition init :: "int \<Rightarrow> int \<Rightarrow> 'd viewer" where
  "init w h = \<lparr> doc = None, page_count = 0, page_index = 0, zoom = 1.0, fit_mode = True,
     dual_page_mode = False, filepath = None, photos = [], is_animating = False,
     animation_direction = 1, animation_progress = 0.0, target_page_index = None,
     block_scale_callback = False, canvas_width = w, canvas_height = h, after_queue = 0,
     page_scale_to = 1, page_scale_value = 1, closed_docs = [] \<rparr>"

text \<open>
  The truth value of \<open>self.doc\<close>: \<open>None\<close> is false, a document answers
  through the library; the result \<open>None\<close> says that the test raises.
\<close>

definition doc_truthy :: "'d fitz \<Rightarrow> 'd viewer \<Rightarrow> bool option" where
  "doc_truthy L s = (case doc s of None \<Rightarrow> Some False | Some d \<Rightarrow> fz_truthy L d)"

subsection \<open>Rendering\<close>

text \<open>
  The scale \<open>_get_page_image\<close> computes for a page whose \<open>rect\<close> is
  \<open>rw\<close> by \<open>rh\<close>. Both quotients are evaluated whatever \<open>fit_mode\<close> says, so a
  zero side raises.
\<close>

definition page_scale :: "'d viewer \<Rightarrow> real \<Rightarrow> real \<Rightarrow> error + real" where
  "page_scale s rw rh =
     (let cw = max 1 (canvas_width s - pad * 2);
          ch = max 1 (canvas_height s - pad * 2);
          effective_cw =
            (if dual_page_mode s \<and> page_index s + 1 < page_count s then cw div 2 else cw)
      in if rw = 0 \<or> rh = 0 then Inl ZeroDivisionError
         else
           let fit_scale = min (real_of_int effective_cw / rw) (real_of_int ch / rh);
               scale = (if fit_mode s then fit_scale else zoom s)
           in Inr (median3 0.2 scale 8.0))"

definition get_page_image :: "'d fitz \<Rightarrow> 'd viewer \<Rightarrow> int \<Rightarrow> error + (nat \<times> nat)" where
  "get_page_image L s page_idx =
     (case doc s of
        None \<Rightarrow> Inl AttributeError
      | Some d \<Rightarrow>
          (case fz_load_page L d page_idx of
             None \<Rightarrow> Inl RenderFailure
           | Some (rw, rh) \<Rightarrow>
               (case page_scale s rw rh of
                  Inl e \<Rightarrow> Inl e
                | Inr scale \<Rightarrow>
                    (case fz_get_pixmap L d page_idx scale of
                       None \<Rightarrow> Inl RenderFailure
                     | Some pix \<Rightarrow> Inr pix))))"

text \<open>The list comprehension over the pages: the first failure ends it.\<close>

fun get_page_images :: "'d fitz \<Rightarrow> 'd viewer \<Rightarrow> int list \<Rightarrow> error + (nat \<times> nat) list" where
  "get_page_images L s [] = Inr []"
| "get_page_images L s (idx # idxs) =
     (case get_page_image L s idx of
        Inl e \<Rightarrow> Inl e
      | Inr img \<Rightarrow>
          (case get_page_images L s idxs of
             Inl e \<Rightarrow> Inl e
           | Inr imgs \<Rightarrow> Inr (img # imgs)))"

definition pages_to_render :: "'d viewer \<Rightarrow> int \<Rightarrow> int list" where
  "pages_to_render s idx =
     (if \<not> dual_page_mode s \<or> idx + 1 \<ge> page_count s then [idx] else [idx, idx + 1])"

definition combine_images_horizontal :: "(nat \<times> nat) list \<Rightarrow> nat \<times> nat" where
  "combine_images_horizontal images =
     (sum_list (map fst images) + nat pad, fold max (map snd images) 0)"

text \<open>The image both render paths compose for the pages rooted at \<open>idx\<close>.\<close>

definition combined_image :: "'d fitz \<Rightarrow> 'd viewer \<Rightarrow> int \<Rightarrow> error + (nat \<times> nat)" where
  "combined_image L s idx =
     (case get_page_images L s (pages_to_render s idx) of
        Inl e \<Rightarrow> Inl e
      | Inr images \<Rightarrow>
          Inr (if length images = 1 then hd images else combine_images_horizontal images))"

definition render_pages :: "'d fitz \<Rightarrow> 'd viewer \<Rightarrow> 'd outcome" where
  "render_pages L s =
     (case combined_image L s (page_index s) of
        Inl e \<Rightarrow> Inl (e, s)
      | Inr img \<Rightarrow> Inr (s\<lparr>photos := [img]\<rparr>))"

definition render :: "'d fitz \<Rightarrow> 'd viewer \<Rightarrow> 'd outcome" where
  "render L s =
     (case doc_truthy L s of
        None \<Rightarrow> Inl (ValueError, s)
      | Some t \<Rightarrow> if t then render_pages L s else Inr s)"

subsection \<open>The flip animation\<close>

definition flip_scale_x :: "'d viewer \<Rightarrow> real" where
  "flip_scale_x s =
     max 0.1 \<bar>if animation_direction s > 0 then 1.0 - animation_progress s
              else animation_progress s\<bar>"

definition flip_render_idx :: "'d viewer \<Rightarrow> int option" where
  "flip_render_idx s =
     (if animation_progress s < 0.5 then Some (page_index s) else target_page_index s)"

definition flip_new_width :: "'d fitz \<Rightarrow> nat \<Rightarrow> real \<Rightarrow> int" where
  "flip_new_width L width scale_x = max 1 (py_int (float_mul L (real width) scale_x))"

definition render_flip_frame :: "'d fitz \<Rightarrow> 'd viewer \<Rightarrow> 'd outcome" where
  "render_flip_frame L s =
     (let scale_x = flip_scale_x s in
      case flip_render_idx s of
        None \<Rightarrow> Inl (AttributeError, s)
      | Some render_idx \<Rightarrow>
          (case combined_image L s render_idx of
             Inl e \<Rightarrow> Inl (e, s)
           | Inr (width, height) \<Rightarrow>
               Inr (s\<lparr>photos := [(nat (flip_new_width L width scale_x), height)]\<rparr>)))"

definition update_page_ui :: "'d viewer \<Rightarrow> 'd viewer" where
  "update_page_ui s = s\<lparr>page_scale_value := page_index s + 1, block_scale_callback := False\<rparr>"

definition animate_flip :: "'d fitz \<Rightarrow> 'd viewer \<Rightarrow> 'd outcome" where
  "animate_flip L s =
     (let s1 = s\<lparr>animation_progress := min 1.0 (animation_progress s + 0.15)\<rparr> in
      case render_flip_frame L s1 of
        Inl e \<Rightarrow> Inl e
      | Inr s2 \<Rightarrow>
          if animation_progress s2 \<ge> 1.0 then
            (case target_page_index s2 of
               None \<Rightarrow> Inl (AttributeError, s2)
             | Some t \<Rightarrow> render L (update_page_ui (s2\<lparr>page_index := t, is_animating := False\<rparr>)))
          else Inr (s2\<lparr>after_queue := Suc (after_queue s2)\<rparr>))"

text \<open>The event loop running one scheduled callback.\<close>

definition tick :: "'d fitz \<Rightarrow> 'd viewer \<Rightarrow> 'd outcome" where
  "tick L s =
     (if after_queue s = 0 then Inr s
      else animate_flip L (s\<lparr>after_queue := after_queue s - 1\<rparr>))"

fun ticks :: "'d fitz \<Rightarrow> nat \<Rightarrow> 'd viewer \<Rightarrow> 'd outcome" where
  "ticks L 0 s = Inr s"
| "ticks L (Suc n) s = (case tick L s of Inl e \<Rightarrow> Inl e | Inr s' \<Rightarrow> ticks L n s')"

definition start_flip_animation :: "'d fitz \<Rightarrow> 'd viewer \<Rightarrow> int \<Rightarrow> int \<Rightarrow> 'd outcome" where
  "start_flip_animation L s target_idx direction =
     (if target_idx = page_index s then Inr s
      else animate_flip L
             (s\<lparr>is_animating := True, animation_direction := direction,
                animation_progress := 0.0, target_page_index := Some target_idx\<rparr>))"

subsection \<open>Navigation and zoom\<close>

definition go_animated :: "'d fitz \<Rightarrow> 'd viewer \<Rightarrow> int \<Rightarrow> int \<Rightarrow> 'd outcome" where
  "go_animated L s index direction =
     (case doc_truthy L s of
        None \<Rightarrow> Inl (ValueError, s)
      | Some t \<Rightarrow>
          if \<not> t \<or> is_animating s then Inr s
          else
            let index' =
                  (if dual_page_mode s then
                     (let i = max 0 (min (page_count s - 1) index)
                      in if i mod 2 \<noteq> 0 then i - 1 else i)
                   else max 0 (min (page_count s - 1) index))
            in start_flip_animation L s index' direction)"

text \<open>The two buttons and the arrow keys.\<close>

definition prev_page :: "'d fitz \<Rightarrow> 'd viewer \<Rightarrow> 'd outcome" where
  "prev_page L s = go_animated L s (page_index s - (if dual_page_mode s then 2 else 1)) (- 1)"

definition next_page :: "'d fitz \<Rightarrow> 'd viewer \<Rightarrow> 'd outcome" where
  "next_page L s = go_animated L s (page_index s + (if dual_page_mode s then 2 else 1)) 1"

definition set_page :: "'d fitz \<Rightarrow> 'd viewer \<Rightarrow> int \<Rightarrow> 'd outcome" where
  "set_page L s idx = render L (update_page_ui (s\<lparr>page_index := idx\<rparr>))"

definition go :: "'d fitz \<Rightarrow> 'd viewer \<Rightarrow> int \<Rightarrow> 'd outcome" where
  "go L s index =
     (case doc_truthy L s of
        None \<Rightarrow> Inl (ValueError, s)
      | Some t \<Rightarrow>
          if t then set_page L s (median3 0 index (page_count s - 1)) else Inr s)"

text \<open>The slider's callback; \<open>v\<close> is \<open>float(v)\<close>.\<close>

definition on_scale :: "'d fitz \<Rightarrow> 'd viewer \<Rightarrow> real \<Rightarrow> 'd outcome" where
  "on_scale L s v = (if block_scale_callback s then Inr s else go L s (py_int v - 1))"

definition zoom_in :: "'d fitz \<Rightarrow> 'd viewer \<Rightarrow> 'd outcome" where
  "zoom_in L s = render L (s\<lparr>fit_mode := False, zoom := median3 0.2 (zoom s * 1.25) 6.0\<rparr>)"

definition zoom_out :: "'d fitz \<Rightarrow> 'd viewer \<Rightarrow> 'd outcome" where
  "zoom_out L s = render L (s\<lparr>fit_mode := False, zoom := median3 0.2 (zoom s / 1.25) 6.0\<rparr>)"

definition toggle_fit :: "'d fitz \<Rightarrow> 'd viewer \<Rightarrow> 'd outcome" where
  "toggle_fit L s = render L (s\<lparr>fit_mode := \<not> fit_mode s\<rparr>)"

definition toggle_dual_page :: "'d fitz \<Rightarrow> 'd viewer \<Rightarrow> 'd outcome" where
  "toggle_dual_page L s = render L (s\<lparr>dual_page_mode := \<not> dual_page_mode s\<rparr>)"

subsection \<open>Opening a document\<close>

text \<open>\<open>self.doc and self.doc.close()\<close>; the truth test comes first and may raise.\<close>

definition close_doc :: "'d fitz \<Rightarrow> 'd viewer \<Rightarrow> 'd outcome" where
  "close_doc L s =
     (case doc s of
        None \<Rightarrow> Inr s
      | Some d \<Rightarrow>
          (case fz_truthy L d of
             None \<Rightarrow> Inl (ValueError, s)
           | Some t \<Rightarrow>
               if t
               then Inr (s\<lparr>doc := Some (fz_close L d), closed_docs := d # closed_docs s\<rparr>)
               else Inr s))"

definition load :: "'d fitz \<Rightarrow> 'd viewer \<Rightarrow> string \<Rightarrow> 'd outcome" where
  "load L s path =
     (case close_doc L s of
        Inl e \<Rightarrow> Inl e
      | Inr s0 \<Rightarrow>
          (case fz_open L path of
             None \<Rightarrow> Inl (DocumentOpenError, s0)
           | Some d \<Rightarrow>
               render L
                 (s0\<lparr>doc := Some d, filepath := Some path, page_count := int (fz_len L d),
                     page_index := 0, zoom := 1.0, fit_mode := True,
                     page_scale_to := max 1 (int (fz_len L d)), page_scale_value := 1,
                     block_scale_callback := False\<rparr>)))"

subsection \<open>A rasterizer to run the viewer on\<close>

text \<open>
  A document is its number of pages and whether it was closed. Two files open:
  \<open>book.pdf\<close> with ten pages and \<open>empty.pdf\<close> with none. The truth test of a
  closed document raises; an open document is true when it has pages (\<open>len\<close>
  decides). Every page is 612 by 792 points, a pixmap has the scaled size
  rounded up, and the pages of a closed document cannot be loaded. The float
  product is the exact one.
\<close>

definition demo_fitz :: "(nat \<times> bool) fitz" where
  "demo_fitz = \<lparr>
     fz_open = (\<lambda>path. if path = ''book.pdf'' then Some (10, False)
                       else if path = ''empty.pdf'' then Some (0, False) else None),
     fz_len = fst,
     fz_truthy = (\<lambda>d. if snd d then None else Some (fst d \<noteq> 0)),
     fz_close = (\<lambda>d. (fst d, True)),
     fz_load_page = (\<lambda>d i. if snd d then None
                            else if 0 \<le> i \<and> i < int (fst d) then Some (612, 792) else None),
     fz_get_pixmap = (\<lambda>d i scale. Some (nat \<lceil>612 * scale\<rceil>, nat \<lceil>792 * scale\<rceil>)),
     float_mul = (\<lambda>a b. a * b) \<rparr>"

text \<open>The viewer with \<open>book.pdf\<close> open in a canvas of 1256 by 720.\<close>

definition book_open :: "(nat \<times> bool) viewer" where
  "book_open = (init 1256 720)\<lparr>doc := Some (10, False), filepath := Some ''book.pdf'',
     page_count := 10, page_scale_to := 10\<rparr>"

text \<open>The same viewer on page 2 (the third page).\<close>

definition book_at_2 :: "(nat \<times> bool) viewer" where
  "book_at_2 = book_open\<lparr>page_index := 2, page_scale_value := 3\<rparr>"

subsection \<open>Notions the properties are stated with\<close>

text \<open>
  The values of the local variables \<open>effective_cw\<close> and \<open>ch\<close> of
  \<open>_get_page_image\<close>: the canvas less the padding on both sides, at least 1, the
  width floor-halved when a dual-page spread shows two pages.
\<close>

definition available_width :: "'d viewer \<Rightarrow> int" where
  "available_width s =
     (if dual_page_mode s \<and> page_index s + 1 < page_count s
      then max 1 (canvas_width s - pad * 2) div 2
      else max 1 (canvas_width s - pad * 2))"

definition available_height :: "'d viewer \<Rightarrow> int" where
  "available_height s = max 1 (canvas_height s - pad * 2)"

text \<open>The spread at the stored page index, the one a steady render shows, has two pages.\<close>

definition two_visible_pages :: "'d viewer \<Rightarrow> bool" where
  "two_visible_pages s = (length (pages_to_render s (page_index s)) = 2)"

text \<open>Two viewers that render every page alike.\<close>

definition same_view :: "'d viewer \<Rightarrow> 'd viewer \<Rightarrow> bool" where
  "same_view s s' =
     (doc s' = doc s \<and> page_count s' = page_count s \<and> page_index s' = page_index s
      \<and> zoom s' = zoom s \<and> fit_mode s' = fit_mode s \<and> dual_page_mode s' = dual_page_mode s
      \<and> canvas_width s' = canvas_width s \<and> canvas_height s' = canvas_height s)"

text \<open>
  The viewer \<open>s'\<close> is \<open>k\<close> frames into a flip that started in \<open>s\<close> towards
  page \<open>t\<close>, with the next frame scheduled.
\<close>

definition flipping :: "'d viewer \<Rightarrow> int \<Rightarrow> int \<Rightarrow> nat \<Rightarrow> 'd viewer \<Rightarrow> bool" where
  "flipping s t dir k s' =
     (same_view s s' \<and> is_animating s' \<and> target_page_index s' = Some t
      \<and> animation_direction s' = dir \<and> animation_progress s' = 0.15 * real k
      \<and> after_queue s' = 1)"

section \<open>Properties\<close>

lemma median3_clamp: "a \<le> c \<Longrightarrow> median3 a b c = max a (min b c)"
  by (auto simp: median3_def)

lemma median3_scale: "median3 0.2 (x::real) 8.0 = max 0.2 (min x 8.0)"
  by (rule median3_clamp) simp

lemma final_simps [simp]: "final (Inr s) = s" "final (Inl (e, s)) = s"
  by (simp_all add: final_def)

lemma py_int_nonneg: "0 \<le> x \<Longrightarrow> py_int x = \<lfloor>x\<rfloor>"
  by (simp add: py_int_def)

subsection \<open>What a render leaves alone\<close>

lemma render_keeps: "\<exists>p. final (render L s) = s\<lparr>photos := p\<rparr>"
proof (cases "doc_truthy L s")
  case None
  then have "final (render L s) = s\<lparr>photos := photos s\<rparr>"
    by (simp add: render_def)
  then show ?thesis ..
next
  case (Some t)
  show ?thesis
  proof (cases t)
    case False
    with Some have "final (render L s) = s\<lparr>photos := photos s\<rparr>"
      by (simp add: render_def)
    then show ?thesis ..
  next
    case True
    with Some show ?thesis
      by (cases "combined_image L s (page_index s)")
         (auto simp: render_def render_pages_def intro: exI [of _ "photos s"])
  qed
qed

lemma render_raises: "doc_truthy L s = None \<Longrightarrow> render L s = Inl (ValueError, s)"
  by (simp add: render_def)

lemma final_render_fields [simp]:
  "zoom (final (render L s)) = zoom s"
  "fit_mode (final (render L s)) = fit_mode s"
  "page_index (final (render L s)) = page_index s"
  "page_count (final (render L s)) = page_count s"
  "dual_page_mode (final (render L s)) = dual_page_mode s"
  "doc (final (render L s)) = doc s"
  "filepath (final (render L s)) = filepath s"
  "is_animating (final (render L s)) = is_animating s"
  "target_page_index (final (render L s)) = target_page_index s"
  "animation_progress (final (render L s)) = animation_progress s"
  "after_queue (final (render L s)) = after_queue s"
  "closed_docs (final (render L s)) = closed_docs s"
  "canvas_width (final (render L s)) = canvas_width s"
  "canvas_height (final (render L s)) = canvas_height s"
  "block_scale_callback (final (render L s)) = block_scale_callback s"
  "animation_direction (final (render L s)) = animation_direction s"
  "page_scale_to (final (render L s)) = page_scale_to s"
  "page_scale_value (final (render L s)) = page_scale_value s"
  using render_keeps [of L s] by auto

subsection \<open>Zoom\<close>

text \<open>
  Claim C7. \<open>_zoom_in\<close> multiplies and \<open>_zoom_out\<close> divides the stored zoom by 1.25,
  each result clamped to the interval from 0.2 to 6.0 (so the stored zoom, 1.0 at
  the start and after every open, stays in it), and each sets \<open>fit_mode\<close> to
  false. Hence a zoom-in followed at once by a zoom-out gives back the stored zoom
  \<open>z\<close> whenever \<open>z\<close> is at least 0.2 and \<open>z * 1.25\<close> does not pass 6.0; when
  \<open>z * 1.25\<close> reaches 6.0 the zoom-in is pinned at 6.0, and when \<open>z / 1.25\<close> falls
  to 0.2 the zoom-out is pinned at 0.2. The floats of the source are real numbers
  here, so the tolerance of the claim is zero.
\<close>

theorem zoom_in_out_roundtrip:
  "zoom (final (zoom_in L s)) = max 0.2 (min (zoom s * 1.25) 6.0)
   \<and> zoom (final (zoom_out L s)) = max 0.2 (min (zoom s / 1.25) 6.0)
   \<and> 0.2 \<le> zoom (final (zoom_in L s)) \<and> zoom (final (zoom_in L s)) \<le> 6.0
   \<and> 0.2 \<le> zoom (final (zoom_out L s)) \<and> zoom (final (zoom_out L s)) \<le> 6.0
   \<and> \<not> fit_mode (final (zoom_in L s)) \<and> \<not> fit_mode (final (zoom_out L s))
   \<and> (0.2 \<le> zoom s \<and> zoom s * 1.25 \<le> 6.0 \<longrightarrow>
        zoom (final (zoom_out L (final (zoom_in L s)))) = zoom s)
   \<and> (6.0 \<le> zoom s * 1.25 \<longrightarrow> zoom (final (zoom_in L s)) = 6.0)
   \<and> (zoom s / 1.25 \<le> 0.2 \<longrightarrow> zoom (final (zoom_out L s)) = 0.2)"
  by (auto simp: zoom_in_def zoom_out_def median3_clamp)

theorem zoom_in_out_roundtrip_witness:
  "0.2 \<le> zoom book_open \<and> zoom book_open * 1.25 \<le> 6.0
   \<and> zoom (final (zoom_out demo_fitz (final (zoom_in demo_fitz book_open)))) = zoom book_open"
  using zoom_in_out_roundtrip [of demo_fitz book_open] by (simp add: book_open_def init_def)

subsection \<open>The width of a flip frame\<close>

lemma flip_scale_x_ge: "0.1 \<le> flip_scale_x s"
  by (simp add: flip_scale_x_def)

text \<open>
  Where the double product falls just below an integer the pixel is lost: a
  composed width of 680 at scale 0.7, whose double product is just below 476,
  gives 475.
\<close>

lemma flip_new_width_below_integer:
  "475 \<le> float_mul L 680 0.7 \<Longrightarrow> float_mul L 680 0.7 < 476 \<Longrightarrow>
     flip_new_width L 680 0.7 = 475"
proof -
  assume a: "475 \<le> float_mul L 680 0.7" and b: "float_mul L 680 0.7 < 476"
  from a b have "\<lfloor>float_mul L 680 0.7\<rfloor> = 475"
    by linarith
  with a show ?thesis
    by (simp add: flip_new_width_def py_int_def)
qed

text \<open>
  Claim C10. The width \<open>_render_flip_frame\<close> resizes the composed image to is at
  least 1, whatever the float product is: it is the larger of 1 and the
  truncation of the product of the composed width and \<open>scale_x\<close>, which is the
  floor of that product when the product is not negative (and the floor of the
  exact product when the float product is exact). So the one photo a flip frame
  puts on display is at least one pixel wide.
\<close>

theorem flip_frame_width_positive:
  "1 \<le> flip_new_width L w (flip_scale_x s)
   \<and> (0 \<le> float_mul L (real w) (flip_scale_x s) \<longrightarrow>
        flip_new_width L w (flip_scale_x s) = max 1 \<lfloor>float_mul L (real w) (flip_scale_x s)\<rfloor>)
   \<and> ((\<forall>a b. float_mul L a b = a * b) \<longrightarrow>
        flip_new_width L w (flip_scale_x s) = max 1 \<lfloor>real w * flip_scale_x s\<rfloor>)
   \<and> (case render_flip_frame L s of
         Inl e \<Rightarrow> True
       | Inr s' \<Rightarrow> list_all (\<lambda>p. 1 \<le> fst p) (photos s') \<and> length (photos s') = 1)"
proof -
  have a: "0 \<le> float_mul L (real w) (flip_scale_x s) \<longrightarrow>
        flip_new_width L w (flip_scale_x s) = max 1 \<lfloor>float_mul L (real w) (flip_scale_x s)\<rfloor>"
    by (simp add: flip_new_width_def py_int_nonneg)
  have "0 \<le> real w * flip_scale_x s"
    using flip_scale_x_ge [of s] by simp
  then have x: "(\<forall>a b. float_mul L a b = a * b) \<longrightarrow>
        flip_new_width L w (flip_scale_x s) = max 1 \<lfloor>real w * flip_scale_x s\<rfloor>"
    by (simp add: flip_new_width_def py_int_nonneg)
  have b: "\<And>w x. 1 \<le> flip_new_width L w x"
    by (simp add: flip_new_width_def)
  have b': "\<And>w x. Suc 0 \<le> nat (flip_new_width L w x)"
    by (simp add: flip_new_width_def)
  have c: "case render_flip_frame L s of
         Inl e \<Rightarrow> True
       | Inr s' \<Rightarrow> list_all (\<lambda>p. 1 \<le> fst p) (photos s') \<and> length (photos s') = 1"
    using b'
    by (auto simp: render_flip_frame_def Let_def split: option.splits sum.splits prod.splits)
  from a x b c show ?thesis by simp
qed

theorem flip_frame_width_positive_witness:
  "0 \<le> float_mul demo_fitz (real 612) (flip_scale_x book_open)
   \<and> 1 \<le> flip_new_width demo_fitz 612 (flip_scale_x book_open)
   \<and> flip_new_width demo_fitz 612 (flip_scale_x book_open)
       = max 1 \<lfloor>float_mul demo_fitz (real 612) (flip_scale_x book_open)\<rfloor>"
proof -
  have h: "0 \<le> float_mul demo_fitz (real 612) (flip_scale_x book_open)"
    by (simp add: demo_fitz_def flip_scale_x_def)
  from flip_frame_width_positive [of demo_fitz 612 book_open] h show ?thesis
    by blast
qed

subsection \<open>Instant navigation in dual-page mode\<close>

text \<open>
  In dual-page mode \<open>_go_animated\<close> flips to an even page: the clamped index
  rounded down.
\<close>

lemma go_animated_dual_aligns:
  "doc_truthy L s = Some True \<Longrightarrow> \<not> is_animating s \<Longrightarrow> dual_page_mode s \<Longrightarrow>
     go_animated L s i d
       = start_flip_animation L s (2 * (max 0 (min (page_count s - 1) i) div 2)) d"
proof -
  have odd: "j mod 2 = 1 \<Longrightarrow> j - 1 = 2 * (j div 2)" for j :: int
    by presburger
  have even: "j mod 2 = 0 \<Longrightarrow> j = 2 * (j div 2)" for j :: int
    by presburger
  assume "doc_truthy L s = Some True" "\<not> is_animating s" "dual_page_mode s"
  then show ?thesis
    using odd [of "max 0 (min (page_count s - 1) i)"]
      even [of "max 0 (min (page_count s - 1) i)"]
    by (auto simp: go_animated_def Let_def)
qed

text \<open>
  Claim C1, at the input where the code leaves it: with \<open>book.pdf\<close> (ten pages)
  open in dual-page mode, \<open>_go(7)\<close> stores the odd index 7, and so does the
  slider at 8. \<open>_go\<close> clamps and does not align, which \<open>_go_animated\<close> does
  (lemma \<open>go_animated_dual_aligns\<close>).
\<close>

theorem go_dual_stores_odd_index:
  "dual_page_mode (final (go demo_fitz (book_open\<lparr>dual_page_mode := True\<rparr>) 7))
   \<and> page_index (final (go demo_fitz (book_open\<lparr>dual_page_mode := True\<rparr>) 7)) = 7
   \<and> page_index (final (on_scale demo_fitz (book_open\<lparr>dual_page_mode := True\<rparr>) 8)) = 7"
  by (simp add: on_scale_def go_def set_page_def update_page_ui_def doc_truthy_def median3_def
      book_open_def init_def demo_fitz_def py_int_def)

subsection \<open>Navigation while a flip runs\<close>

lemma go_animated_while_animating:
  "is_animating s \<Longrightarrow> doc_truthy L s = Some t \<Longrightarrow> go_animated L s i d = Inr s"
  by (simp add: go_animated_def)

lemma next_page_book:
  "is_animating (final (next_page demo_fitz book_open))
   \<and> page_index (final (next_page demo_fitz book_open)) = 0
   \<and> target_page_index (final (next_page demo_fitz book_open)) = Some 1
   \<and> animation_progress (final (next_page demo_fitz book_open)) = 0.15
   \<and> \<not> block_scale_callback (final (next_page demo_fitz book_open))
   \<and> doc (final (next_page demo_fitz book_open)) = Some (10, False)
   \<and> page_count (final (next_page demo_fitz book_open)) = 10"
  by (simp add: next_page_def go_animated_def start_flip_animation_def animate_flip_def
      render_flip_frame_def flip_render_idx_def combined_image_def pages_to_render_def
      get_page_image_def page_scale_def pad_def doc_truthy_def book_open_def init_def
      demo_fitz_def final_def Let_def)

text \<open>
  Claim C4, at the input where the code leaves it: the next-page button on
  \<open>book.pdf\<close> starts a flip from page 0 to page 1, which is running (progress
  0.15) when the slider is moved to 8; the slider's callback stores the page
  index 7 while the flip is still running. \<open>_go_animated\<close> returns at once while
  \<open>is_animating\<close> holds (lemma \<open>go_animated_while_animating\<close>, for a document
  whose truth test passes); \<open>_go\<close> does not look at it.
\<close>

theorem slider_during_flip:
  "is_animating (final (next_page demo_fitz book_open))
   \<and> page_index (final (next_page demo_fitz book_open)) = 0
   \<and> target_page_index (final (next_page demo_fitz book_open)) = Some 1
   \<and> animation_progress (final (next_page demo_fitz book_open)) < 1
   \<and> page_index (final (on_scale demo_fitz (final (next_page demo_fitz book_open)) 8)) = 7
   \<and> is_animating (final (on_scale demo_fitz (final (next_page demo_fitz book_open)) 8))"
  using next_page_book
  by (simp add: on_scale_def go_def set_page_def update_page_ui_def doc_truthy_def median3_def
      demo_fitz_def py_int_def)

subsection \<open>Opening a document\<close>

lemma close_doc_fields [simp]:
  "page_index (final (close_doc L s)) = page_index s"
  "page_count (final (close_doc L s)) = page_count s"
  "zoom (final (close_doc L s)) = zoom s"
  "fit_mode (final (close_doc L s)) = fit_mode s"
  "dual_page_mode (final (close_doc L s)) = dual_page_mode s"
  "filepath (final (close_doc L s)) = filepath s"
  "is_animating (final (close_doc L s)) = is_animating s"
  by (simp_all add: close_doc_def split: option.splits)

lemma close_doc_raises: "doc_truthy L s = None \<Longrightarrow> close_doc L s = Inl (ValueError, s)"
  by (cases "doc s") (simp_all add: close_doc_def doc_truthy_def)

lemma close_doc_returns: "doc_truthy L s = Some t \<Longrightarrow> close_doc L s = Inr (final (close_doc L s))"
  by (cases "doc s") (simp_all add: close_doc_def doc_truthy_def)

lemma close_doc_falsy: "doc_truthy L s = Some False \<Longrightarrow> close_doc L s = Inr s"
  by (cases "doc s") (simp_all add: close_doc_def doc_truthy_def)

lemma close_doc_truthy:
  "doc s = Some d0 \<Longrightarrow> fz_truthy L d0 = Some True \<Longrightarrow>
     close_doc L s = Inr (s\<lparr>doc := Some (fz_close L d0), closed_docs := d0 # closed_docs s\<rparr>)"
  by (simp add: close_doc_def)

lemma load_raises: "doc_truthy L s = None \<Longrightarrow> load L s path = Inl (ValueError, s)"
  by (simp add: load_def close_doc_raises)

lemma load_fails:
  assumes o: "fz_open L path = None" and t: "doc_truthy L s = Some t"
  shows "load L s path = Inl (DocumentOpenError, final (close_doc L s))"
proof -
  obtain s0 where c: "close_doc L s = Inr s0"
    using close_doc_returns [OF t] by blast
  show ?thesis
    by (simp add: load_def c o)
qed

lemma load_opens:
  assumes o: "fz_open L path = Some d" and t: "doc_truthy L s = Some t"
  shows "load L s path =
       render L
         ((final (close_doc L s))\<lparr>doc := Some d, filepath := Some path,
             page_count := int (fz_len L d), page_index := 0, zoom := 1.0, fit_mode := True,
             page_scale_to := max 1 (int (fz_len L d)), page_scale_value := 1,
             block_scale_callback := False\<rparr>)"
proof -
  obtain s0 where c: "close_doc L s = Inr s0"
    using close_doc_returns [OF t] by blast
  show ?thesis
    by (simp add: load_def c o)
qed

text \<open>
  Claim C2 as stated fails: \<open>_load\<close> closes the open document before it calls
  \<open>fitz.open\<close>. With \<open>book.pdf\<close> open, opening a path that does not open leaves
  \<open>self.doc\<close> on the closed document, whose pages no longer render, although
  they did before the call.
\<close>

theorem load_failure_counterexample:
  "fz_open demo_fitz ''missing.pdf'' = None
   \<and> \<not> raised (render demo_fitz book_open)
   \<and> raised (render demo_fitz (final (load demo_fitz book_open ''missing.pdf'')))
   \<and> doc (final (load demo_fitz book_open ''missing.pdf'')) \<noteq> doc book_open"
  by (simp add: load_def close_doc_def final_def render_def render_pages_def doc_truthy_def
      book_open_def init_def demo_fitz_def combined_image_def pages_to_render_def
      get_page_image_def page_scale_def pad_def raised_def)

text \<open>
  Claim C2, amended. When the path does not open, \<open>_load\<close> raises and leaves the
  page index, the zoom, the fit mode, the dual-page flag, the page count and the
  file path exactly as they were. The exception is that of the failed open
  unless the truth test of \<open>self.doc\<close> raises first (a closed document), in
  which case nothing at all has changed. The document that was open, when its
  object is true, has been closed by then and \<open>self.doc\<close> still refers to it; if
  the truth test of a closed document raises, every later render raises. With
  no document, or one whose object is false, the whole state is unchanged.
\<close>

theorem load_failure_state:
  "fz_open L path = None \<Longrightarrow>
     raised (load L s path)
   \<and> (doc_truthy L s \<noteq> None \<longrightarrow>
         load L s path = Inl (DocumentOpenError, final (load L s path)))
   \<and> page_index (final (load L s path)) = page_index s
   \<and> zoom (final (load L s path)) = zoom s
   \<and> fit_mode (final (load L s path)) = fit_mode s
   \<and> dual_page_mode (final (load L s path)) = dual_page_mode s
   \<and> page_count (final (load L s path)) = page_count s
   \<and> filepath (final (load L s path)) = filepath s
   \<and> (\<forall>d. doc s = Some d \<and> fz_truthy L d = Some True \<longrightarrow>
         doc (final (load L s path)) = Some (fz_close L d)
         \<and> closed_docs (final (load L s path)) = d # closed_docs s
         \<and> (fz_truthy L (fz_close L d) = None \<longrightarrow>
               raised (render L (final (load L s path)))))
   \<and> (doc_truthy L s = Some False \<longrightarrow> final (load L s path) = s)
   \<and> (doc_truthy L s = None \<longrightarrow> load L s path = Inl (ValueError, s))"
proof (cases "doc_truthy L s")
  case None
  assume "fz_open L path = None"
  from None have n: "\<And>d. doc s = Some d \<Longrightarrow> fz_truthy L d = None"
    by (simp add: doc_truthy_def)
  from None show ?thesis
    by (auto simp: load_raises raised_def dest: n)
next
  case (Some t)
  assume o: "fz_open L path = None"
  have l: "load L s path = Inl (DocumentOpenError, final (close_doc L s))"
    using o Some by (rule load_fails)
  have c: "doc (final (load L s path)) = Some (fz_close L d)
         \<and> closed_docs (final (load L s path)) = d # closed_docs s
         \<and> (fz_truthy L (fz_close L d) = None \<longrightarrow>
               raised (render L (final (load L s path))))"
    if "doc s = Some d" "fz_truthy L d = Some True" for d
    unfolding l using that
    by (simp add: close_doc_truthy render_def doc_truthy_def raised_def)
  have f: "doc_truthy L s = Some False \<longrightarrow> final (load L s path) = s"
    unfolding l by (simp add: close_doc_falsy)
  from Some c f show ?thesis
    by (simp add: l raised_def)
qed

theorem load_failure_state_witness:
  "fz_open demo_fitz ''missing.pdf'' = None
   \<and> doc book_open = Some (10, False) \<and> fz_truthy demo_fitz (10, False) = Some True
   \<and> fz_truthy demo_fitz (fz_close demo_fitz (10, False)) = None
   \<and> load demo_fitz book_open ''missing.pdf''
       = Inl (DocumentOpenError, final (load demo_fitz book_open ''missing.pdf''))
   \<and> page_index (final (load demo_fitz book_open ''missing.pdf'')) = page_index book_open
   \<and> doc (final (load demo_fitz book_open ''missing.pdf'')) = Some (fz_close demo_fitz (10, False))
   \<and> closed_docs (final (load demo_fitz book_open ''missing.pdf'')) = [(10, False)]
   \<and> raised (render demo_fitz (final (load demo_fitz book_open ''missing.pdf'')))"
proof -
  have h: "fz_open demo_fitz ''missing.pdf'' = None"
    by (simp add: demo_fitz_def)
  have d: "doc book_open = Some (10, False)" "fz_truthy demo_fitz (10, False) = Some True"
    "closed_docs book_open = []" "fz_truthy demo_fitz (fz_close demo_fitz (10, False)) = None"
    "doc_truthy demo_fitz book_open \<noteq> None"
    by (simp_all add: book_open_def init_def demo_fitz_def doc_truthy_def)
  from load_failure_state [OF h, of book_open] h d show ?thesis
    by auto
qed

text \<open>
  Claim C3 as stated fails: \<open>_load\<close> never assigns \<open>dual_page_mode\<close>. With
  \<open>book.pdf\<close> open and the dual-page button pressed, opening \<open>book.pdf\<close> again
  succeeds and the viewer is still in dual-page mode.
\<close>

theorem load_keeps_dual_counterexample:
  "fz_open demo_fitz ''book.pdf'' = Some (10, False)
   \<and> \<not> raised (load demo_fitz (final (toggle_dual_page demo_fitz book_open)) ''book.pdf'')
   \<and> dual_page_mode
        (final (load demo_fitz (final (toggle_dual_page demo_fitz book_open)) ''book.pdf''))"
  by (simp add: load_def close_doc_def toggle_dual_page_def render_def render_pages_def
      doc_truthy_def book_open_def init_def demo_fitz_def combined_image_def pages_to_render_def
      get_page_image_def page_scale_def pad_def raised_def final_def median3_def)

text \<open>
  Claim C3, amended. For every prior state in which the truth test of
  \<open>self.doc\<close> does not raise (no document, or a document that is not closed)
  and every path that opens, \<open>_load\<close> leaves the page index 0, the zoom 1.0 and
  the fit mode true, holds the new document with its page count and path, and
  leaves the dual-page flag as it was; the document open before, when its object
  is true, was closed first. From a state in which the truth test raises (the
  state a failed open leaves, \<open>self.doc\<close> on a closed document) \<open>_load\<close> raises
  before it reaches \<open>fitz.open\<close> and changes nothing.
\<close>

theorem load_success_state:
  "fz_open L path = Some d \<Longrightarrow>
     (doc_truthy L s \<noteq> None \<longrightarrow>
        page_index (final (load L s path)) = 0
      \<and> zoom (final (load L s path)) = 1.0
      \<and> fit_mode (final (load L s path))
      \<and> dual_page_mode (final (load L s path)) = dual_page_mode s
      \<and> doc (final (load L s path)) = Some d
      \<and> page_count (final (load L s path)) = int (fz_len L d)
      \<and> filepath (final (load L s path)) = Some path
      \<and> (\<forall>d0. doc s = Some d0 \<and> fz_truthy L d0 = Some True \<longrightarrow>
            closed_docs (final (load L s path)) = d0 # closed_docs s))
   \<and> (doc_truthy L s = None \<longrightarrow> load L s path = Inl (ValueError, s))"
proof (cases "doc_truthy L s")
  case None
  then show ?thesis
    by (simp add: load_raises)
next
  case (Some t)
  assume o: "fz_open L path = Some d"
  note l = load_opens [OF o Some]
  have c: "closed_docs (final (load L s path)) = d0 # closed_docs s"
    if "doc s = Some d0" "fz_truthy L d0 = Some True" for d0
    unfolding l using that by (simp add: close_doc_truthy)
  from Some c show ?thesis
    by (simp add: l)
qed

text \<open>
  Two runs: \<open>book.pdf\<close> opened over the open book, and \<open>book.pdf\<close> opened after
  the failed open of a missing file.
\<close>

theorem load_success_state_witness:
  "fz_open demo_fitz ''book.pdf'' = Some (10, False)
   \<and> doc_truthy demo_fitz book_open \<noteq> None
   \<and> doc book_open = Some (10, False) \<and> fz_truthy demo_fitz (10, False) = Some True
   \<and> page_index (final (load demo_fitz book_open ''book.pdf'')) = 0
   \<and> zoom (final (load demo_fitz book_open ''book.pdf'')) = 1.0
   \<and> fit_mode (final (load demo_fitz book_open ''book.pdf''))
   \<and> dual_page_mode (final (load demo_fitz book_open ''book.pdf'')) = dual_page_mode book_open
   \<and> closed_docs (final (load demo_fitz book_open ''book.pdf'')) = [(10, False)]
   \<and> doc_truthy demo_fitz (final (load demo_fitz book_open ''missing.pdf'')) = None
   \<and> load demo_fitz (final (load demo_fitz book_open ''missing.pdf'')) ''book.pdf''
       = Inl (ValueError, final (load demo_fitz book_open ''missing.pdf''))"
proof -
  have h: "fz_open demo_fitz ''book.pdf'' = Some (10, False)"
    by (simp add: demo_fitz_def)
  have d: "doc book_open = Some (10, False)" "fz_truthy demo_fitz (10, False) = Some True"
    "closed_docs book_open = []" "doc_truthy demo_fitz book_open \<noteq> None"
    by (simp_all add: book_open_def init_def demo_fitz_def doc_truthy_def)
  have n: "doc_truthy demo_fitz (final (load demo_fitz book_open ''missing.pdf'')) = None"
    by (simp add: load_def close_doc_def doc_truthy_def book_open_def init_def demo_fitz_def)
  from load_success_state [OF h, of book_open]
    load_success_state [OF h, of "final (load demo_fitz book_open ''missing.pdf'')"] h d n
  show ?thesis
    by auto
qed

subsection \<open>The resolved render scale\<close>

lemma page_scale_unfold:
  "page_scale s rw rh =
     (if rw = 0 \<or> rh = 0 then Inl ZeroDivisionError
      else Inr (median3 0.2 (if fit_mode s
                          then min (real_of_int (available_width s) / rw)
                                   (real_of_int (available_height s) / rh)
                          else zoom s) 8.0))"
  unfolding page_scale_def Let_def available_width_def available_height_def by (rule refl)

lemma page_scale_eq:
  "rw \<noteq> 0 \<Longrightarrow> rh \<noteq> 0 \<Longrightarrow>
     page_scale s rw rh =
       Inr (max 0.2 (min (if fit_mode s
                          then min (real_of_int (available_width s) / rw)
                                   (real_of_int (available_height s) / rh)
                          else zoom s) 8.0))"
  by (simp only: page_scale_unfold median3_scale if_False simp_thms)


lemma two_visible_pages_iff:
  "two_visible_pages s \<longleftrightarrow> dual_page_mode s \<and> page_index s + 1 < page_count s"
  by (auto simp: two_visible_pages_def pages_to_render_def)


subsection \<open>The frames of a flip\<close>

lemmas demo_render_defs =
  render_flip_frame_def flip_render_idx_def combined_image_def pages_to_render_def
  get_page_image_def page_scale_def pad_def doc_truthy_def book_open_def init_def
  demo_fitz_def final_def Let_def flip_scale_x_def flip_new_width_def py_int_def median3_def

lemma flip_step0:
  "final (toggle_fit demo_fitz book_open) = book_open\<lparr>fit_mode := False, photos := [(612, 792)]\<rparr>"
  by (simp add: toggle_fit_def render_def render_pages_def demo_render_defs)

lemma flip_step1:
  "final (next_page demo_fitz (book_open\<lparr>fit_mode := False, photos := [(612, 792)]\<rparr>))
     = book_open\<lparr>fit_mode := False, photos := [(520, 792)], is_animating := True,
         animation_direction := 1, animation_progress := 0.15, target_page_index := Some 1,
         after_queue := 1\<rparr>"
  by (simp add: next_page_def go_animated_def start_flip_animation_def animate_flip_def
      demo_render_defs)

lemma flip_step2:
  "tick demo_fitz (book_open\<lparr>fit_mode := False, photos := [(520, 792)], is_animating := True,
         animation_direction := 1, animation_progress := 0.15, target_page_index := Some 1,
         after_queue := 1\<rparr>)
     = Inr (book_open\<lparr>fit_mode := False, photos := [(428, 792)], is_animating := True,
         animation_direction := 1, animation_progress := 0.3, target_page_index := Some 1,
         after_queue := 1\<rparr>)"
  by (simp add: tick_def animate_flip_def demo_render_defs)

lemma flip_step3:
  "tick demo_fitz (book_open\<lparr>fit_mode := False, photos := [(428, 792)], is_animating := True,
         animation_direction := 1, animation_progress := 0.3, target_page_index := Some 1,
         after_queue := 1\<rparr>)
     = Inr (book_open\<lparr>fit_mode := False, photos := [(336, 792)], is_animating := True,
         animation_direction := 1, animation_progress := 0.45, target_page_index := Some 1,
         after_queue := 1\<rparr>)"
  by (simp add: tick_def animate_flip_def demo_render_defs)



subsection \<open>A flip from start to end\<close>

lemma same_view_page_scale: "same_view s s' \<Longrightarrow> page_scale s' rw rh = page_scale s rw rh"
  by (simp add: page_scale_def same_view_def Let_def)

lemma same_view_get_page_image:
  assumes v: "same_view s s'"
  shows "get_page_image L s' i = get_page_image L s i"
proof -
  have d: "doc s' = doc s"
    using v by (simp add: same_view_def)
  show ?thesis
    by (simp add: get_page_image_def d same_view_page_scale [OF v]
          cong: option.case_cong prod.case_cong sum.case_cong)
qed

lemma same_view_get_page_images:
  "same_view s s' \<Longrightarrow> get_page_images L s' is = get_page_images L s is"
  by (induction "is") (simp_all add: same_view_get_page_image cong: sum.case_cong)

lemma same_view_combined_image:
  assumes v: "same_view s s'"
  shows "combined_image L s' i = combined_image L s i"
proof -
  have p: "pages_to_render s' i = pages_to_render s i"
    using v by (simp add: pages_to_render_def same_view_def)
  show ?thesis
    by (simp add: combined_image_def p same_view_get_page_images [OF v])
qed

lemma ticks_snoc:
  "ticks L (Suc n) s = (case ticks L n s of Inl e \<Rightarrow> Inl e | Inr s' \<Rightarrow> tick L s')"
proof (induction n arbitrary: s)
  case 0
  show ?case by (simp split: sum.splits)
next
  case (Suc n)
  show ?case
  proof (cases "tick L s")
    case (Inl e)
    then show ?thesis by simp
  next
    case (Inr s1)
    have "ticks L (Suc (Suc n)) s = ticks L (Suc n) s1"
      using Inr by simp
    also have "\<dots> = (case ticks L n s1 of Inl e \<Rightarrow> Inl e | Inr s' \<Rightarrow> tick L s')"
      by (rule Suc.IH)
    also have "ticks L n s1 = ticks L (Suc n) s"
      using Inr by simp
    finally show ?thesis .
  qed
qed

lemma progress_step: "k < 6 \<Longrightarrow> min 1 (0.15 * real k + 0.15) = 0.15 * real (Suc k)"
  by (simp add: min_def algebra_simps)

text \<open>One call of \<open>_animate_flip\<close> before the last: the frame is drawn and the next one scheduled.\<close>

lemma animate_flip_running:
  assumes v: "same_view s x" and a: "is_animating x" and t: "target_page_index x = Some t"
    and d: "animation_direction x = dir" and p: "animation_progress x = 0.15 * real k"
    and k: "k < 6" and q: "after_queue x = 0"
    and r1: "\<not> isl (combined_image L s (page_index s))"
    and r2: "\<not> isl (combined_image L s t)"
  shows "\<exists>x'. animate_flip L x = Inr x' \<and> flipping s t dir (Suc k) x'"
proof -
  define x1 where "x1 = x\<lparr>animation_progress := min 1.0 (animation_progress x + 0.15)\<rparr>"
  have p1: "animation_progress x1 = 0.15 * real (Suc k)"
    using progress_step [OF k] by (simp add: x1_def p)
  have lt: "animation_progress x1 < 1"
    using k unfolding p1 by simp
  have v1: "same_view s x1"
    using v by (simp add: same_view_def x1_def)
  have pi: "page_index x1 = page_index s"
    using v1 by (simp add: same_view_def)
  have t1: "target_page_index x1 = Some t"
    by (simp add: x1_def t)
  obtain i where i: "flip_render_idx x1 = Some i" and ii: "i = page_index s \<or> i = t"
    by (cases "animation_progress x1 < 0.5") (simp_all add: flip_render_idx_def pi t1)
  from ii r1 r2 have "\<not> isl (combined_image L s i)"
    by auto
  then obtain w h where wh: "combined_image L x1 i = Inr (w, h)"
    unfolding same_view_combined_image [OF v1] by (cases "combined_image L s i") auto
  define x2 where "x2 = x1\<lparr>photos := [(nat (flip_new_width L w (flip_scale_x x1)), h)]\<rparr>"
  have f: "render_flip_frame L x1 = Inr x2"
    by (simp add: render_flip_frame_def i wh x2_def)
  have p2: "animation_progress x2 = animation_progress x1"
    by (simp add: x2_def)
  have af: "animate_flip L x = Inr (x2\<lparr>after_queue := Suc (after_queue x2)\<rparr>)"
    unfolding animate_flip_def Let_def x1_def [symmetric] using lt by (simp add: f p2)
  have "flipping s t dir (Suc k) (x2\<lparr>after_queue := Suc (after_queue x2)\<rparr>)"
    using v1 p1 a t d q by (simp add: flipping_def same_view_def x2_def x1_def)
  with af show ?thesis by blast
qed

lemma tick_running:
  assumes f: "flipping s t dir k s'" and k: "k < 6"
    and r1: "\<not> isl (combined_image L s (page_index s))"
    and r2: "\<not> isl (combined_image L s t)"
  shows "\<exists>s''. tick L s' = Inr s'' \<and> flipping s t dir (Suc k) s''"
proof -
  have tk: "tick L s' = animate_flip L (s'\<lparr>after_queue := 0\<rparr>)"
    using f by (simp add: tick_def flipping_def)
  show ?thesis
    unfolding tk
    by (rule animate_flip_running [OF _ _ _ _ _ k _ r1 r2])
       (use f in \<open>simp_all add: flipping_def same_view_def\<close>)
qed

lemma ticks_running:
  assumes r1: "\<not> isl (combined_image L s (page_index s))"
    and r2: "\<not> isl (combined_image L s t)"
  shows "flipping s t dir k s' \<Longrightarrow> k + n \<le> 6 \<Longrightarrow>
     \<exists>s''. ticks L n s' = Inr s'' \<and> flipping s t dir (k + n) s''"
proof (induction n arbitrary: k s')
  case 0
  then show ?case by simp
next
  case (Suc n)
  from Suc.prems have k: "k < 6"
    by simp
  from tick_running [OF Suc.prems(1) k r1 r2]
  obtain s1 where s1: "tick L s' = Inr s1" "flipping s t dir (Suc k) s1"
    by blast
  from Suc.prems have "Suc k + n \<le> 6"
    by simp
  from Suc.IH [OF s1(2) this] s1(1) show ?case
    by simp
qed

text \<open>The last call: the page index becomes the target and the animation ends.\<close>

lemma tick_terminal:
  assumes f: "flipping s t dir 6 s'"
    and r2: "\<not> isl (combined_image L s t)"
  shows "page_index (final (tick L s')) = t \<and> \<not> is_animating (final (tick L s'))
     \<and> animation_progress (final (tick L s')) = 1 \<and> after_queue (final (tick L s')) = 0"
proof -
  define x where "x = s'\<lparr>after_queue := 0\<rparr>"
  define x1 where "x1 = x\<lparr>animation_progress := min 1.0 (animation_progress x + 0.15)\<rparr>"
  have tk: "tick L s' = animate_flip L x"
    using f by (simp add: tick_def flipping_def x_def)
  have p1: "animation_progress x1 = 1"
    using f by (simp add: x1_def x_def flipping_def)
  have v1: "same_view s x1"
    using f by (simp add: same_view_def x1_def x_def flipping_def)
  have t1: "target_page_index x1 = Some t"
    using f by (simp add: x1_def x_def flipping_def)
  have i: "flip_render_idx x1 = Some t"
    by (simp add: flip_render_idx_def p1 t1)
  from r2 obtain w h where wh: "combined_image L x1 t = Inr (w, h)"
    unfolding same_view_combined_image [OF v1] by (cases "combined_image L s t") auto
  define x2 where "x2 = x1\<lparr>photos := [(nat (flip_new_width L w (flip_scale_x x1)), h)]\<rparr>"
  have fr: "render_flip_frame L x1 = Inr x2"
    by (simp add: render_flip_frame_def i wh x2_def)
  have af: "animate_flip L x =
      render L (update_page_ui (x2\<lparr>page_index := t, is_animating := False\<rparr>))"
    unfolding animate_flip_def Let_def x1_def [symmetric]
    by (simp add: fr) (simp add: x2_def p1 t1)
  show ?thesis
    unfolding tk af by (simp add: update_page_ui_def x2_def p1) (simp add: x1_def x_def)
qed

text \<open>
  Claim C5. A flip started with no callback pending, towards a page other than
  the current one, both of which rasterize, takes exactly seven calls of
  \<open>_animate_flip\<close>: the first is made by \<open>_start_flip_animation\<close> itself, and
  after it and after each of the next five ticks the animation is still running,
  with progress 0.15, 0.30, ..., 0.90 (below 1), the page index still the source
  and one callback scheduled; the sixth tick after the start, the seventh call,
  brings the progress to 1.0 (1.05 clamped), stores the target as the page index,
  ends the animation and schedules nothing.
\<close>

theorem flip_completes_in_seven_ticks:
  "after_queue s = 0 \<and> target \<noteq> page_index s
   \<and> \<not> isl (combined_image L s (page_index s)) \<and> \<not> isl (combined_image L s target) \<Longrightarrow>
     (\<exists>s1. start_flip_animation L s target dir = Inr s1
        \<and> (\<forall>k<6. \<exists>s'. ticks L k s1 = Inr s'
              \<and> is_animating s' \<and> animation_progress s' = 0.15 * real (Suc k)
              \<and> animation_progress s' < 1 \<and> page_index s' = page_index s
              \<and> target_page_index s' = Some target \<and> after_queue s' = 1)
        \<and> page_index (final (ticks L 6 s1)) = target
        \<and> \<not> is_animating (final (ticks L 6 s1))
        \<and> animation_progress (final (ticks L 6 s1)) = 1
        \<and> after_queue (final (ticks L 6 s1)) = 0)"
proof -
  assume h: "after_queue s = 0 \<and> target \<noteq> page_index s
   \<and> \<not> isl (combined_image L s (page_index s)) \<and> \<not> isl (combined_image L s target)"
  then have r1: "\<not> isl (combined_image L s (page_index s))"
    and r2: "\<not> isl (combined_image L s target)"
    by simp_all
  define x where "x = s\<lparr>is_animating := True, animation_direction := dir,
                animation_progress := 0.0, target_page_index := Some target\<rparr>"
  have st: "start_flip_animation L s target dir = animate_flip L x"
    using h by (simp add: start_flip_animation_def x_def)
  have "\<exists>x'. animate_flip L x = Inr x' \<and> flipping s target dir (Suc 0) x'"
    by (rule animate_flip_running [OF _ _ _ _ _ _ _ r1 r2])
       (use h in \<open>simp_all add: x_def same_view_def\<close>)
  then obtain s1 where s1: "start_flip_animation L s target dir = Inr s1"
    and f1: "flipping s target dir 1 s1"
    unfolding st by auto
  have run: "\<exists>s'. ticks L k s1 = Inr s'
              \<and> is_animating s' \<and> animation_progress s' = 0.15 * real (Suc k)
              \<and> animation_progress s' < 1 \<and> page_index s' = page_index s
              \<and> target_page_index s' = Some target \<and> after_queue s' = 1" if k: "k < 6" for k
  proof -
    from k have "1 + k \<le> 6"
      by simp
    from ticks_running [OF r1 r2 f1 this]
    obtain s' where s': "ticks L k s1 = Inr s'" "flipping s target dir (1 + k) s'"
      by blast
    from s'(2) k have "animation_progress s' < 1"
      by (simp add: flipping_def)
    with s' show ?thesis
      by (simp add: flipping_def same_view_def)
  qed
  from ticks_running [OF r1 r2 f1, of 5]
  obtain s5 where s5: "ticks L 5 s1 = Inr s5" "flipping s target dir 6 s5"
    by auto
  have "ticks L (Suc 5) s1 = tick L s5"
    unfolding ticks_snoc by (simp add: s5)
  then have six: "ticks L 6 s1 = tick L s5"
    by simp
  have fin: "page_index (final (ticks L 6 s1)) = target
        \<and> \<not> is_animating (final (ticks L 6 s1))
        \<and> animation_progress (final (ticks L 6 s1)) = 1
        \<and> after_queue (final (ticks L 6 s1)) = 0"
    unfolding six by (rule tick_terminal [OF s5(2) r2])
  from s1 run fin show ?thesis
    by blast
qed

lemma book_at_2_renders:
  "\<not> isl (combined_image demo_fitz book_at_2 2)" "\<not> isl (combined_image demo_fitz book_at_2 5)"
  by (simp_all add: book_at_2_def demo_render_defs)

text \<open>The flip from page index 2 to 5 of \<open>book.pdf\<close>.\<close>

theorem flip_completes_in_seven_ticks_witness:
  "after_queue book_at_2 = 0 \<and> 5 \<noteq> page_index book_at_2
   \<and> \<not> isl (combined_image demo_fitz book_at_2 (page_index book_at_2))
   \<and> \<not> isl (combined_image demo_fitz book_at_2 5)
   \<and> (\<exists>s1. start_flip_animation demo_fitz book_at_2 5 1 = Inr s1
         \<and> (\<exists>s'. ticks demo_fitz 5 s1 = Inr s' \<and> is_animating s'
               \<and> animation_progress s' < 1 \<and> page_index s' = 2)
         \<and> page_index (final (ticks demo_fitz 6 s1)) = 5
         \<and> \<not> is_animating (final (ticks demo_fitz 6 s1))
         \<and> animation_progress (final (ticks demo_fitz 6 s1)) = 1)"
proof -
  have p: "page_index book_at_2 = 2" "after_queue book_at_2 = 0"
    by (simp_all add: book_at_2_def book_open_def init_def)
  have h: "after_queue book_at_2 = 0 \<and> 5 \<noteq> page_index book_at_2
   \<and> \<not> isl (combined_image demo_fitz book_at_2 (page_index book_at_2))
   \<and> \<not> isl (combined_image demo_fitz book_at_2 5)"
    using book_at_2_renders by (simp add: p)
  from flip_completes_in_seven_ticks [OF h, of 1]
  obtain s1 where s1: "start_flip_animation demo_fitz book_at_2 5 1 = Inr s1"
    and run: "\<forall>k<6. \<exists>s'. ticks demo_fitz k s1 = Inr s'
              \<and> is_animating s' \<and> animation_progress s' = 0.15 * real (Suc k)
              \<and> animation_progress s' < 1 \<and> page_index s' = page_index book_at_2
              \<and> target_page_index s' = Some 5 \<and> after_queue s' = 1"
    and fin: "page_index (final (ticks demo_fitz 6 s1)) = 5"
      "\<not> is_animating (final (ticks demo_fitz 6 s1))"
      "animation_progress (final (ticks demo_fitz 6 s1)) = 1"
    by blast
  from run have "\<exists>s'. ticks demo_fitz 5 s1 = Inr s' \<and> is_animating s'
               \<and> animation_progress s' < 1 \<and> page_index s' = 2"
    using p(1) by (auto dest!: spec [of _ 5])
  with h s1 fin show ?thesis
    by blast
qed

subsection \<open>Instances of the scale and of the frame geometry\<close>



subsection \<open>A document with no pages\<close>

lemma render_falsy: "doc_truthy L s = Some False \<Longrightarrow> render L s = Inr s"
  by (simp add: render_def)




end
